theory Spec2Isabelle
  imports Main "HOL-Library.Word"
begin

section \<open>Bytes, exceptions and files\<close>

type_synonym byte = "8 word"
type_synonym bytes = "byte list"
type_synonym path = string

text \<open>
  A Python exception is its class and the text \<open>str(e)\<close> gives. Every class listed is a
  subclass of \<open>Exception\<close>, so \<open>except Exception\<close> catches each of them. The first five
  are raised by \<open>open\<close>, \<open>read\<close>, \<open>write\<close> and \<open>close\<close>; \<open>ValueError\<close>, \<open>TypeError\<close> and
  \<open>UnsupportedAlgorithm\<close> by the \<open>cryptography\<close> package; \<open>Exception\<close> is the plain
  class the key manager raises itself; the last three are the kinds the specification
  names for the chunk cipher.
\<close>

datatype exn_class =
    FileNotFoundError | IsADirectoryError | NotADirectoryError | PermissionError | OSError
  | ValueError | TypeError | UnsupportedAlgorithm
  | Exception
  | ConfigurationError | SizeError | DecryptError

datatype exn = Raise (cls: exn_class) (str: string)

text \<open>
  What is found at a path. No entry means that nothing is there while the directory
  of the path exists. A regular file is \<open>File\<close> when it may be read and written and
  \<open>ReadOnly\<close> when it may only be read. \<open>Unopenable\<close> stands for every other way
  \<open>open\<close> fails, in both modes: a directory of the path does not exist, a component of
  the path is a regular file, access is denied, or any other error of the operating
  system, given by its text.
\<close>

datatype os_error = NoSuchDirectory | NotADirectory | PermissionDenied | OtherError string

datatype 'a node = File 'a | ReadOnly 'a | Directory | Unopenable os_error

type_synonym filesystem = "path \<Rightarrow> bytes node option"

text \<open>A path as an error message shows it, between single quotes.\<close>

definition quoted :: "path \<Rightarrow> string" where
  "quoted p = [CHR 0x27] @ p @ [CHR 0x27]"

definition no_such_file :: "path \<Rightarrow> exn" where
  "no_such_file p = Raise FileNotFoundError (''[Errno 2] No such file or directory: '' @ quoted p)"

definition is_a_directory :: "path \<Rightarrow> exn" where
  "is_a_directory p = Raise IsADirectoryError (''[Errno 21] Is a directory: '' @ quoted p)"

definition permission_denied :: "path \<Rightarrow> exn" where
  "permission_denied p = Raise PermissionError (''[Errno 13] Permission denied: '' @ quoted p)"

fun os_exn :: "os_error \<Rightarrow> path \<Rightarrow> exn" where
  "os_exn NoSuchDirectory p = no_such_file p"
| "os_exn NotADirectory p = Raise NotADirectoryError (''[Errno 20] Not a directory: '' @ quoted p)"
| "os_exn PermissionDenied p = permission_denied p"
| "os_exn (OtherError msg) p = Raise OSError (msg @ '': '' @ quoted p)"

text \<open>
  \<open>open(p, "rb")\<close>, with the bytes a read of the whole file gives: \<open>FileNotFoundError\<close>
  when nothing is at \<open>p\<close> or a directory of \<open>p\<close> does not exist,
  \<open>IsADirectoryError\<close> when \<open>p\<close> is a directory, and the error of the operating
  system otherwise.
\<close>

definition open_rb :: "filesystem \<Rightarrow> path \<Rightarrow> exn + bytes" where
  "open_rb fs p =
     (case fs p of
        None \<Rightarrow> Inl (no_such_file p)
      | Some (File c) \<Rightarrow> Inr c
      | Some (ReadOnly c) \<Rightarrow> Inr c
      | Some Directory \<Rightarrow> Inl (is_a_directory p)
      | Some (Unopenable err) \<Rightarrow> Inl (os_exn err p))"

text \<open>
  \<open>open(p, "wb")\<close> creates the file or truncates it to length zero; it fails on a file
  that may not be written, on a directory, and with the error of the operating system
  otherwise.
\<close>

definition open_wb :: "filesystem \<Rightarrow> path \<Rightarrow> exn + filesystem" where
  "open_wb fs p =
     (case fs p of
        None \<Rightarrow> Inr (fs(p \<mapsto> File []))
      | Some (File c) \<Rightarrow> Inr (fs(p \<mapsto> File []))
      | Some (ReadOnly c) \<Rightarrow> Inl (permission_denied p)
      | Some Directory \<Rightarrow> Inl (is_a_directory p)
      | Some (Unopenable err) \<Rightarrow> Inl (os_exn err p))"

text \<open>The bytes an open handle reads from what is at its path now.\<close>

fun content_of :: "bytes node option \<Rightarrow> bytes" where
  "content_of (Some (File c)) = c"
| "content_of (Some (ReadOnly c)) = c"
| "content_of _ = []"

text \<open>
  \<open>f.read(n)\<close> on the remaining bytes: everything when \<open>n\<close> is negative (the callers
  pass 446 and 512; \<open>-1\<close> is the negative size a reader accepts).
\<close>

definition read :: "int \<Rightarrow> bytes \<Rightarrow> bytes" where
  "read n rest = (if n < 0 then rest else take (nat n) rest)"

section \<open>The file manager\<close>

datatype signal =
    update_processed_bytes nat
  | operation_completed
  | critical_error path string

text \<open>
  What happens around one run and is not decided by the program: whether the slot
  \<open>stop_process_request\<close> has been invoked from outside before the flag is tested in
  iteration \<open>i\<close>, whether the device fails the read or the write of iteration \<open>i\<close>,
  and whether it fails the flush of the written bytes when the output file is closed,
  with the number of bytes that reached the file before.
\<close>

record env =
  stop_request :: "nat \<Rightarrow> bool"
  read_error :: "nat \<Rightarrow> exn option"
  write_error :: "nat \<Rightarrow> exn option"
  flush_error :: "(exn \<times> nat) option"

text \<open>
  A chunk handler is a Python callable, not a function of the chunk alone (the OAEP
  encryptor draws fresh randomness at each call), so the model hands it the number of
  the call as well.
\<close>

type_synonym chunk_handler = "nat \<Rightarrow> bytes \<Rightarrow> exn + bytes"

record FileManager =
  stop_flag :: bool

definition stop_process_request :: "FileManager \<Rightarrow> FileManager" where
  "stop_process_request self = self\<lparr>stop_flag := True\<rparr>"

text \<open>The state the loop of \<open>_process_file\<close> works on, and the three ways it ends.\<close>

record loop_state =
  flag :: bool
  outfile :: bytes
  emitted :: "signal list"

datatype loop_exit = Returned | Broke | Raised exn

function process_loop ::
  "env \<Rightarrow> chunk_handler \<Rightarrow> int \<Rightarrow> nat \<Rightarrow> bytes \<Rightarrow> loop_state \<Rightarrow> loop_exit \<times> loop_state"
where
  "process_loop ev handler chunk_size i infile s =
     (let s1 = s\<lparr>flag := flag s \<or> stop_request ev i\<rparr> in
      if flag s1 then (Returned, s1)
      else (case read_error ev i of
        Some e \<Rightarrow> (Raised e, s1)
      | None \<Rightarrow>
          (let chunk = read chunk_size infile in
           if chunk = [] then (Broke, s1)
           else (case handler i chunk of
             Inl e \<Rightarrow> (Raised e, s1)
           | Inr processed_chunk \<Rightarrow>
               (case write_error ev i of
                  Some e \<Rightarrow> (Raised e, s1)
                | None \<Rightarrow>
                    process_loop ev handler chunk_size (Suc i) (drop (length chunk) infile)
                      (s1\<lparr>outfile := outfile s1 @ processed_chunk,
                          emitted := emitted s1 @ [update_processed_bytes (length chunk)]\<rparr>))))))"
  by pat_completeness auto
termination
  by (relation "measure (\<lambda>(ev, handler, chunk_size, i, infile, s). length infile)")
     (auto simp: read_def split: if_splits)

declare process_loop.simps [simp del]

text \<open>
  \<open>_process_file\<close>. The body of the \<open>try\<close> opens the input, then the output (which
  truncates it, also when both paths name the same file, so the input is read as it is
  after that), runs the loop from a state holding the manager's flag, and emits
  \<open>operation_completed\<close> when the loop was left by \<open>break\<close>; that signal is emitted
  inside the \<open>with\<close> block. Leaving the block, by \<open>return\<close>, after the signal or with
  an exception, closes both files, and closing the output flushes the bytes written.
  When that flush fails, its exception leaves the body in place of any other, after
  the signals emitted so far, and the output file holds the bytes that had reached it.
  The first component is the exception that leaves the body, if any. The \<open>print\<close> on a
  stop and the log entry on an error change nothing the model keeps, and are left out.
\<close>

record world =
  files :: filesystem
  signals :: "signal list"

text \<open>
  Closing the files: with nothing written there is nothing to flush; otherwise the
  flush fails as the environment says.
\<close>

definition close_files :: "env \<Rightarrow> bytes \<Rightarrow> (exn \<times> nat) option" where
  "close_files ev written = (if written = [] then None else flush_error ev)"

definition process_file_try ::
  "env \<Rightarrow> FileManager \<Rightarrow> world \<Rightarrow> path \<Rightarrow> path \<Rightarrow> chunk_handler \<Rightarrow> int
     \<Rightarrow> exn option \<times> FileManager \<times> world"
where
  "process_file_try ev self w input_file_path output_file_path handler chunk_size =
     (case open_rb (files w) input_file_path of
        Inl e \<Rightarrow> (Some e, self, w)
      | Inr _ \<Rightarrow>
          (case open_wb (files w) output_file_path of
             Inl e \<Rightarrow> (Some e, self, w)
           | Inr fs \<Rightarrow>
               (let infile = content_of (fs input_file_path);
                    r = process_loop ev handler chunk_size 0 infile
                          \<lparr>flag = stop_flag self, outfile = [], emitted = []\<rparr>;
                    self' = self\<lparr>stop_flag := flag (snd r)\<rparr>;
                    sigs = signals w @ emitted (snd r) @
                             (case fst r of Broke \<Rightarrow> [operation_completed] | _ \<Rightarrow> [])
                in (case close_files ev (outfile (snd r)) of
                      None \<Rightarrow>
                        ((case fst r of Raised e \<Rightarrow> Some e | _ \<Rightarrow> None), self',
                         \<lparr>files = fs(output_file_path \<mapsto> File (outfile (snd r))),
                          signals = sigs\<rparr>)
                    | Some (e, n) \<Rightarrow>
                        (Some e, self',
                         \<lparr>files = fs(output_file_path \<mapsto> File (take n (outfile (snd r)))),
                          signals = sigs\<rparr>)))))"

text \<open>
  The \<open>except Exception\<close> clause turns whatever left the body into one
  \<open>critical_error\<close> signal. The first component of the result is the exception that
  reaches the caller.
\<close>

definition process_file ::
  "env \<Rightarrow> FileManager \<Rightarrow> world \<Rightarrow> path \<Rightarrow> path \<Rightarrow> chunk_handler \<Rightarrow> int
     \<Rightarrow> exn option \<times> FileManager \<times> world"
where
  "process_file ev self w input_file_path output_file_path handler chunk_size =
     (case process_file_try ev self w input_file_path output_file_path handler chunk_size of
        (None, self', w') \<Rightarrow> (None, self', w')
      | (Some e, self', w') \<Rightarrow>
          (None, self', w'\<lparr>signals := signals w' @ [critical_error input_file_path (str e)]\<rparr>))"

section \<open>The chunk cipher and the two directions\<close>

text \<open>
  The \<open>cryptography\<close> package is a parameter of the model: key generation for a public
  exponent and a key size, PEM serialisation and parsing, the key size in bits, and
  RSA-OAEP on one block (the encryption at its \<open>i\<close>-th draw of randomness; decryption
  gives \<open>None\<close> when unpadding or validation fails). Keys are opaque to the program,
  so their types are parameters too.
\<close>

datatype encryption_algorithm = NoEncryption | BestAvailableEncryption bytes

record ('pub, 'priv) cryptography =
  generate_private_key :: "nat \<Rightarrow> nat \<Rightarrow> exn + 'priv"
  private_bytes :: "'priv \<Rightarrow> encryption_algorithm \<Rightarrow> exn + bytes"
  load_pem_private_key :: "bytes \<Rightarrow> bytes option \<Rightarrow> exn + 'priv"
  load_pem_public_key :: "bytes \<Rightarrow> exn + 'pub"
  public_key_size :: "'pub \<Rightarrow> nat"
  private_key_size :: "'priv \<Rightarrow> nat"
  oaep_encrypt :: "'pub \<Rightarrow> nat \<Rightarrow> bytes \<Rightarrow> bytes"
  oaep_decrypt :: "'priv \<Rightarrow> bytes \<Rightarrow> bytes option"

definition modulus_byte_len :: "nat \<Rightarrow> nat" where
  "modulus_byte_len key_size = (key_size + 7) div 8"

text \<open>
  Modelled from the spec: \<open>backend/chunk_encrypter.py\<close> (the class \<open>ChunkEncrypter\<close>) is
  not among the sources. Section 4.2: an instance holds exactly one key;
  \<open>encrypt_chunk\<close> requires \<open>len(plaintext) \<le> max_plaintext_len(key)\<close> and fails with
  \<open>SizeError\<close> beyond it, otherwise applies the padding scheme; \<open>decrypt_chunk\<close>
  requires \<open>len(ciphertext) == modulus_byte_len(key)\<close> and fails with \<open>SizeError\<close> on a
  mismatch, and with \<open>DecryptError\<close> when the ciphertext fails unpadding or
  validation; calling the direction the instance has no key for is a
  \<open>ConfigurationError\<close>. Section 8 gives the capacity: OAEP with SHA-256 leaves the
  modulus length minus 66 bytes (446 for a 4096-bit key).
\<close>

datatype ('pub, 'priv) ChunkEncrypter = ChunkEncrypter "'pub option" "'priv option"

definition max_plaintext_len :: "nat \<Rightarrow> nat" where
  "max_plaintext_len key_size = modulus_byte_len key_size - 66"

fun encrypt_chunk ::
  "('pub, 'priv) cryptography \<Rightarrow> ('pub, 'priv) ChunkEncrypter \<Rightarrow> chunk_handler"
where
  "encrypt_chunk lib (ChunkEncrypter None _) i plaintext =
     Inl (Raise ConfigurationError ''public key required'')"
| "encrypt_chunk lib (ChunkEncrypter (Some k) _) i plaintext =
     (if length plaintext > max_plaintext_len (public_key_size lib k)
      then Inl (Raise SizeError ''plaintext too long'')
      else Inr (oaep_encrypt lib k i plaintext))"

fun decrypt_chunk ::
  "('pub, 'priv) cryptography \<Rightarrow> ('pub, 'priv) ChunkEncrypter \<Rightarrow> chunk_handler"
where
  "decrypt_chunk lib (ChunkEncrypter _ None) i ciphertext =
     Inl (Raise ConfigurationError ''private key required'')"
| "decrypt_chunk lib (ChunkEncrypter _ (Some k)) i ciphertext =
     (if length ciphertext \<noteq> modulus_byte_len (private_key_size lib k)
      then Inl (Raise SizeError ''ciphertext length must equal the modulus length'')
      else (case oaep_decrypt lib k ciphertext of
              None \<Rightarrow> Inl (Raise DecryptError ''decryption failed'')
            | Some plaintext \<Rightarrow> Inr plaintext))"

text \<open>
  Modelled from the spec: \<open>backend/constants.py\<close> (the class \<open>Size\<close>) is not among the
  sources. Section 8: encryption reads chunks of 446 bytes, decryption chunks of 512
  bytes.
\<close>

definition Size_ENCRYPTION_CHUNK :: int where
  "Size_ENCRYPTION_CHUNK = 446"

definition Size_DECRYPTION_CHUNK :: int where
  "Size_DECRYPTION_CHUNK = 512"

text \<open>
  \<open>encrypt_file\<close> and \<open>decrypt_file\<close>. The attribute \<open>self.chunk_encrypter\<close> is written
  and read within the same call only, so it is a local value here.
\<close>

definition encrypt_file ::
  "env \<Rightarrow> ('pub, 'priv) cryptography \<Rightarrow> FileManager \<Rightarrow> world \<Rightarrow> path \<Rightarrow> path \<Rightarrow> 'pub
     \<Rightarrow> exn option \<times> FileManager \<times> world"
where
  "encrypt_file ev lib self w input_file_path output_file_path public_key =
     (let chunk_encrypter = ChunkEncrypter (Some public_key) None
      in process_file ev self w input_file_path output_file_path
           (encrypt_chunk lib chunk_encrypter) Size_ENCRYPTION_CHUNK)"

definition decrypt_file ::
  "env \<Rightarrow> ('pub, 'priv) cryptography \<Rightarrow> FileManager \<Rightarrow> world \<Rightarrow> path \<Rightarrow> path \<Rightarrow> 'priv
     \<Rightarrow> exn option \<times> FileManager \<times> world"
where
  "decrypt_file ev lib self w input_file_path output_file_path private_key =
     (let chunk_encrypter = ChunkEncrypter None (Some private_key)
      in process_file ev self w input_file_path output_file_path
           (decrypt_chunk lib chunk_encrypter) Size_DECRYPTION_CHUNK)"

section \<open>The key manager\<close>

text \<open>
  \<open>str.encode("utf-8")\<close> on a string of code points below 256: one byte below 128, two
  bytes from there on.
\<close>

definition utf8_char :: "char \<Rightarrow> bytes" where
  "utf8_char c =
     (let n = (of_char c :: nat)
      in if n < 128 then [of_nat n] else [of_nat (192 + n div 64), of_nat (128 + n mod 64)])"

definition encode_utf8 :: "string \<Rightarrow> bytes" where
  "encode_utf8 s = concat (map utf8_char s)"

text \<open>
  The class \<open>Rsa\<close> of \<open>backend/constants.py\<close> is not among the sources; its two
  constants are parameters.
\<close>

record Rsa =
  PUBLIC_EXPONENT :: nat
  KEY_SIZE :: nat

text \<open>
  \<open>save_private_key_to_file\<close>. An absent key (\<open>not private_key\<close>) is generated; the
  encryption is chosen by the truth value of \<open>password\<close>, which is false for \<open>None\<close>
  and for the empty string; the file is opened (created or truncated), the key
  serialised, the PEM written. The result is the exception raised, if any, and the
  files afterwards.
\<close>

definition save_private_key_to_file ::
  "('pub, 'priv) cryptography \<Rightarrow> Rsa \<Rightarrow> filesystem \<Rightarrow> path \<Rightarrow> string option \<Rightarrow> 'priv option
     \<Rightarrow> exn option \<times> filesystem"
where
  "save_private_key_to_file lib rsa fs output_pem_file_path password private_key =
     (case (case private_key of
              None \<Rightarrow> generate_private_key lib (PUBLIC_EXPONENT rsa) (KEY_SIZE rsa)
            | Some k \<Rightarrow> Inr k) of
        Inl e \<Rightarrow> (Some e, fs)
      | Inr k \<Rightarrow>
          (let encryption =
                 (case password of
                    None \<Rightarrow> NoEncryption
                  | Some pw \<Rightarrow>
                      if pw \<noteq> [] then BestAvailableEncryption (encode_utf8 pw)
                      else NoEncryption)
           in (case open_wb fs output_pem_file_path of
                 Inl e \<Rightarrow> (Some e, fs)
               | Inr fs' \<Rightarrow>
                   (case private_bytes lib k encryption of
                      Inl e \<Rightarrow> (Some e, fs')
                    | Inr private_pem \<Rightarrow>
                        (None, fs'(output_pem_file_path \<mapsto> File private_pem))))))"

text \<open>
  \<open>load_private_key_from_file\<close>: a password that is not \<open>None\<close> is encoded; whatever
  the body raises is replaced, \<open>FileNotFoundError\<close> by a \<open>FileNotFoundError\<close> naming the
  path, anything else by a plain \<open>Exception\<close> asking to check the file format.
\<close>

definition private_key_not_found :: "path \<Rightarrow> exn" where
  "private_key_not_found pem_file_path =
     Raise FileNotFoundError (''Private key file not found: '' @ pem_file_path)"

definition private_key_failed :: "exn \<Rightarrow> exn" where
  "private_key_failed e =
     Raise Exception
       (''Failed to process private key. Please check file format and try again.''
        @ [CHR 0x0A, CHR 0x0A] @ ''Additional Info:'' @ [CHR 0x0A] @ '' '' @ str e)"

definition load_private_key_from_file ::
  "('pub, 'priv) cryptography \<Rightarrow> filesystem \<Rightarrow> path \<Rightarrow> string option \<Rightarrow> exn + 'priv"
where
  "load_private_key_from_file lib fs pem_file_path password =
     (let password' = map_option encode_utf8 password
      in (case (case open_rb fs pem_file_path of
                  Inl e \<Rightarrow> Inl e
                | Inr data \<Rightarrow> load_pem_private_key lib data password') of
            Inr private_key \<Rightarrow> Inr private_key
          | Inl e \<Rightarrow>
              if cls e = FileNotFoundError then Inl (private_key_not_found pem_file_path)
              else Inl (private_key_failed e)))"

text \<open>
  \<open>serialize_public_key\<close> wraps every failure of the parser in a plain \<open>Exception\<close>
  with advice; \<open>serialize_private_key\<close> has no \<open>try\<close> and hands the parser's own
  exception on.
\<close>

definition public_key_failed :: "exn \<Rightarrow> exn" where
  "public_key_failed e =
     Raise Exception
       (''Failed to serialize public key, most likely key was corrupted, or you made a mistake, when provided the key.''
        @ [CHR 0x0A] @ ''Please check your input, and try again.''
        @ [CHR 0x0A, CHR 0x0A] @ ''Additional Info:'' @ [CHR 0x0A] @ '' '' @ str e)"

definition serialize_public_key :: "('pub, 'priv) cryptography \<Rightarrow> string \<Rightarrow> exn + 'pub" where
  "serialize_public_key lib public_key =
     (case load_pem_public_key lib (encode_utf8 public_key) of
        Inr serialized_public_key \<Rightarrow> Inr serialized_public_key
      | Inl e \<Rightarrow> Inl (public_key_failed e))"

definition serialize_private_key ::
  "('pub, 'priv) cryptography \<Rightarrow> string \<Rightarrow> string option \<Rightarrow> exn + 'priv"
where
  "serialize_private_key lib private_key password =
     (let password' = map_option encode_utf8 password
      in load_pem_private_key lib (encode_utf8 private_key) password')"

section \<open>Slices, transforms and running totals\<close>

text \<open>
  The successive \<open>chunk_size\<close>-byte slices of a file, the transform applied to a list
  of chunks from call number \<open>i\<close> on (failing where the first call fails), the running
  totals a receiver of the progress signals keeps, and the signals that end a run.
\<close>

function slices :: "int \<Rightarrow> bytes \<Rightarrow> bytes list" where
  "slices n xs =
     (if read n xs = [] then [] else read n xs # slices n (drop (length (read n xs)) xs))"
  by pat_completeness auto
termination
  by (relation "measure (\<lambda>(n, xs). length xs)") (auto simp: read_def split: if_splits)

declare slices.simps [simp del]

fun transform :: "chunk_handler \<Rightarrow> nat \<Rightarrow> bytes list \<Rightarrow> exn + bytes" where
  "transform handler i [] = Inr []"
| "transform handler i (c # cs) =
     (case handler i c of
        Inl e \<Rightarrow> Inl e
      | Inr p \<Rightarrow> (case transform handler (Suc i) cs of Inl e \<Rightarrow> Inl e | Inr ps \<Rightarrow> Inr (p @ ps)))"

fun cumulative :: "nat \<Rightarrow> nat list \<Rightarrow> nat list" where
  "cumulative acc [] = []"
| "cumulative acc (d # ds) = (acc + d) # cumulative (acc + d) ds"

fun terminal :: "signal \<Rightarrow> bool" where
  "terminal (update_processed_bytes _) = False"
| "terminal _ = True"

text \<open>An environment that neither requests a stop nor fails a read, a write or the flush.\<close>

definition undisturbed :: "env \<Rightarrow> bool" where
  "undisturbed ev \<longleftrightarrow>
     (\<forall>i. \<not> stop_request ev i \<and> read_error ev i = None \<and> write_error ev i = None) \<and>
     flush_error ev = None"

definition calm :: env where
  "calm = \<lparr>stop_request = (\<lambda>_. False), read_error = (\<lambda>_. None), write_error = (\<lambda>_. None),
            flush_error = None\<rparr>"

text \<open>
  What the package guarantees of a matching key pair: both halves have one key size,
  and a plaintext within capacity encrypts, at every draw of randomness, to a
  ciphertext of modulus length that decrypts to the plaintext.
\<close>

definition oaep_key_pair :: "('pub, 'priv) cryptography \<Rightarrow> 'pub \<Rightarrow> 'priv \<Rightarrow> bool" where
  "oaep_key_pair lib pub priv \<longleftrightarrow>
     public_key_size lib pub = private_key_size lib priv \<and>
     (\<forall>i p. length p \<le> max_plaintext_len (public_key_size lib pub) \<longrightarrow>
        length (oaep_encrypt lib pub i p) = modulus_byte_len (public_key_size lib pub) \<and>
        oaep_decrypt lib priv (oaep_encrypt lib pub i p) = Some p)"

text \<open>The signal that follows the loop, by the way it was left.\<close>

definition terminal_of :: "path \<Rightarrow> loop_exit \<Rightarrow> signal list" where
  "terminal_of p ex = (case ex of Returned \<Rightarrow> [] | Broke \<Rightarrow> [operation_completed]
      | Raised e \<Rightarrow> [critical_error p (str e)])"

text \<open>
  The signals that end a run and the bytes left in the output file, by the way the
  loop was left and by what closing the files does.
\<close>

definition end_signals :: "env \<Rightarrow> path \<Rightarrow> loop_exit \<Rightarrow> bytes \<Rightarrow> signal list" where
  "end_signals ev p ex written =
     (case close_files ev written of
        None \<Rightarrow> terminal_of p ex
      | Some (e, k) \<Rightarrow>
          (case ex of Broke \<Rightarrow> [operation_completed] | _ \<Rightarrow> []) @ [critical_error p (str e)])"

definition kept :: "env \<Rightarrow> bytes \<Rightarrow> bytes" where
  "kept ev written =
     (case close_files ev written of None \<Rightarrow> written | Some (e, k) \<Rightarrow> take k written)"

text \<open>The ciphertext chunks of a list of plaintext chunks, from call number \<open>i\<close> on.\<close>

fun encrypted_chunks ::
  "('pub, 'priv) cryptography \<Rightarrow> 'pub \<Rightarrow> nat \<Rightarrow> bytes list \<Rightarrow> bytes list"
where
  "encrypted_chunks lib k i [] = []"
| "encrypted_chunks lib k i (c # cs) = oaep_encrypt lib k i c # encrypted_chunks lib k (Suc i) cs"

section \<open>A small instance of the package\<close>

text \<open>
  An instance of the interface on which the model can be run. A key is a byte string
  as long as its modulus, public and private half alike. A PEM starts with a tag byte:
  0 for an unencrypted private key, 1 for an encrypted one (followed by the length of
  the password and the password), 2 for a public key. The cipher puts one byte of
  randomness first, then the plaintext, a byte 1, and zeros up to the modulus length.
\<close>

definition could_not_deserialize :: exn where
  "could_not_deserialize = Raise ValueError ''Could not deserialize key data.''"

definition sample_private_bytes :: "bytes \<Rightarrow> encryption_algorithm \<Rightarrow> exn + bytes" where
  "sample_private_bytes k enc =
     (case enc of
        NoEncryption \<Rightarrow> Inr (0 # k)
      | BestAvailableEncryption pw \<Rightarrow>
          if pw = [] then Inl (Raise ValueError ''Password must be 1 or more bytes.'')
          else Inr (1 # of_nat (length pw) # pw @ k))"

definition sample_load_private :: "bytes \<Rightarrow> bytes option \<Rightarrow> exn + bytes" where
  "sample_load_private d pw =
     (case d of
        [] \<Rightarrow> Inl could_not_deserialize
      | t # r \<Rightarrow>
          if t = 0 then
            (case pw of
               None \<Rightarrow> Inr r
             | Some _ \<Rightarrow>
                 Inl (Raise TypeError ''Password was given but private key is not encrypted.''))
          else if t = 1 then
            (case r of
               [] \<Rightarrow> Inl could_not_deserialize
             | l # r' \<Rightarrow>
                 (case pw of
                    None \<Rightarrow>
                      Inl (Raise TypeError ''Password was not given but private key is encrypted'')
                  | Some p \<Rightarrow>
                      if take (unat l) r' = p then Inr (drop (unat l) r')
                      else Inl (Raise ValueError ''Bad decrypt. Incorrect password?'')))
          else Inl could_not_deserialize)"

definition sample_load_public :: "bytes \<Rightarrow> exn + bytes" where
  "sample_load_public d =
     (case d of
        [] \<Rightarrow> Inl could_not_deserialize
      | t # r \<Rightarrow> if t = 2 then Inr r else Inl could_not_deserialize)"

definition sample_encrypt :: "bytes \<Rightarrow> nat \<Rightarrow> bytes \<Rightarrow> bytes" where
  "sample_encrypt pub i p = of_nat i # p @ [1] @ replicate (length pub - length p - 2) 0"

definition sample_decrypt :: "bytes \<Rightarrow> bytes \<Rightarrow> bytes option" where
  "sample_decrypt priv c =
     (case dropWhile (\<lambda>b. b = 0) (rev c) of
        [] \<Rightarrow> None
      | m # r \<Rightarrow> if m = 1 \<and> r \<noteq> [] then Some (tl (rev r)) else None)"

definition sample_lib :: "(bytes, bytes) cryptography" where
  "sample_lib =
     \<lparr>generate_private_key = (\<lambda>e n. Inr (replicate (n div 8) (of_nat e))),
      private_bytes = sample_private_bytes,
      load_pem_private_key = sample_load_private,
      load_pem_public_key = sample_load_public,
      public_key_size = (\<lambda>k. 8 * length k),
      private_key_size = (\<lambda>k. 8 * length k),
      oaep_encrypt = sample_encrypt,
      oaep_decrypt = sample_decrypt\<rparr>"

definition demo_world :: world where
  "demo_world = \<lparr>files = [''in.bin'' \<mapsto> File [1, 2, 3]], signals = []\<rparr>"

definition demo_handler :: chunk_handler where
  "demo_handler i c = Inr (rev c)"


definition disk_full :: env where
  "disk_full = calm\<lparr>flush_error := Some (Raise OSError ''[Errno 28] No space left on device'', 0)\<rparr>"

definition demo_rsa :: Rsa where
  "demo_rsa = \<lparr>PUBLIC_EXPONENT = 65537, KEY_SIZE = 4096\<rparr>"

section \<open>The loop, step by step\<close>

lemma slices_Nil: "read n xs = [] \<Longrightarrow> slices n xs = []"
  by (subst slices.simps) simp

lemma slices_Cons:
  "read n xs \<noteq> [] \<Longrightarrow> slices n xs = read n xs # slices n (drop (length (read n xs)) xs)"
  by (subst slices.simps) simp

lemma process_loop_run:
  "process_loop ev h n i d s = (ex, s') \<Longrightarrow>
   \<exists>m out. m \<le> length (slices n d) \<and>
     transform h i (take m (slices n d)) = Inr out \<and>
     outfile s' = outfile s @ out \<and>
     emitted s' = emitted s @ map (\<lambda>c. update_processed_bytes (length c)) (take m (slices n d)) \<and>
     (ex = Broke \<longrightarrow> m = length (slices n d)) \<and>
     (flag s' \<longleftrightarrow> ex = Returned)"
proof (induction ev h n i d s arbitrary: ex s' rule: process_loop.induct)
  case (1 ev h n i d s)
  let ?s1 = "s\<lparr>flag := flag s \<or> stop_request ev i\<rparr>"
  let ?c = "read n d"
  show ?case
  proof (cases "flag ?s1 \<or> read_error ev i \<noteq> None \<or> ?c = [] \<or> (\<exists>e. h i ?c = Inl e) \<or> write_error ev i \<noteq> None")
    case True
    then have "s' = ?s1 \<and> ex \<noteq> Broke \<and> (flag ?s1 \<longleftrightarrow> ex = Returned) \<or> s' = ?s1 \<and> ex = Broke \<and> ?c = [] \<and> \<not> flag ?s1"
      using "1.prems"
      by (subst (asm) process_loop.simps) (auto simp: Let_def split: if_splits option.splits sum.splits)
    then show ?thesis
      by (intro exI[of _ 0] exI[of _ "[]"]) (auto simp: slices_Nil)
  next
    case False
    then obtain p where p: "h i ?c = Inr p" by (cases "h i ?c") auto
    let ?s2 = "?s1\<lparr>outfile := outfile ?s1 @ p,
                    emitted := emitted ?s1 @ [update_processed_bytes (length ?c)]\<rparr>"
    from False p "1.prems" have run: "process_loop ev h n (Suc i) (drop (length ?c) d) ?s2 = (ex, s')"
      by (subst (asm) process_loop.simps) (auto simp: Let_def)
    from False p have "\<exists>m out. m \<le> length (slices n (drop (length ?c) d)) \<and>
     transform h (Suc i) (take m (slices n (drop (length ?c) d))) = Inr out \<and>
     outfile s' = outfile ?s2 @ out \<and>
     emitted s' = emitted ?s2 @ map (\<lambda>c. update_processed_bytes (length c)) (take m (slices n (drop (length ?c) d))) \<and>
     (ex = Broke \<longrightarrow> m = length (slices n (drop (length ?c) d))) \<and>
     (flag s' \<longleftrightarrow> ex = Returned)"
      by (intro "1.IH"[OF refl _ _ refl _ _ _ run]) auto
    then obtain m out where IH: "m \<le> length (slices n (drop (length ?c) d))"
      "transform h (Suc i) (take m (slices n (drop (length ?c) d))) = Inr out"
      "outfile s' = outfile ?s2 @ out"
      "emitted s' = emitted ?s2 @ map (\<lambda>c. update_processed_bytes (length c)) (take m (slices n (drop (length ?c) d)))"
      "ex = Broke \<longrightarrow> m = length (slices n (drop (length ?c) d))"
      "flag s' \<longleftrightarrow> ex = Returned" by blast
    from False have sl: "slices n d = ?c # slices n (drop (length ?c) d)"
      by (simp add: slices_Cons)
    show ?thesis
      using IH p by (intro exI[of _ "Suc m"] exI[of _ "p @ out"]) (simp add: sl)
  qed
qed


lemma slices_nonempty: "c \<in> set (slices n d) \<Longrightarrow> c \<noteq> []"
proof (induction n d rule: slices.induct)
  case (1 n xs)
  show ?case
  proof (cases "read n xs = []")
    case True
    with "1.prems" show ?thesis by (simp add: slices_Nil)
  next
    case False
    note sl = slices_Cons[OF False]
    from "1.prems" have "c = read n xs \<or> c \<in> set (slices n (drop (length (read n xs)) xs))"
      unfolding sl by simp
    with False "1.IH"[OF False] show ?thesis by auto
  qed
qed

lemma concat_slices: "concat (slices n d) = (if n = 0 then [] else d)"
proof (induction n d rule: slices.induct)
  case (1 n xs)
  show ?case
  proof (cases "read n xs = []")
    case True
    then show ?thesis by (auto simp: slices_Nil read_def split: if_splits)
  next
    case False
    then have n: "n \<noteq> 0" by (auto simp: read_def)
    have "read n xs @ drop (length (read n xs)) xs = xs"
      by (simp add: read_def min_def)
    with n "1.IH"[OF False] show ?thesis
      unfolding slices_Cons[OF False] by simp
  qed
qed

lemma cumulative_bound: "x \<in> set (cumulative a ds) \<Longrightarrow> \<forall>d \<in> set ds. 0 < d \<Longrightarrow> a < x"
  by (induction ds arbitrary: a) fastforce+

lemma cumulative_increasing: "\<forall>d \<in> set ds. 0 < d \<Longrightarrow> sorted_wrt (<) (cumulative a ds)"
  by (induction ds arbitrary: a) (auto dest: cumulative_bound)

lemma open_wb_Inr: "open_wb fs p = Inr fs' \<Longrightarrow> fs' = fs(p \<mapsto> File [])"
  by (auto simp: open_wb_def split: option.splits node.splits)

lemma open_wb_elsewhere:
  "open_wb fs p = Inr fs' \<Longrightarrow> fs2 p = fs p \<Longrightarrow> open_wb fs2 p = Inr (fs2(p \<mapsto> File []))"
  by (auto simp: open_wb_def split: option.splits node.splits)

lemma content_after_open:
  "open_rb fs inp = Inr d \<Longrightarrow>
   content_of ((fs(outp \<mapsto> File [])) inp) = (if inp = outp then [] else d)"
  by (auto simp: open_rb_def split: option.splits node.splits)

lemma close_files_Nil [simp]: "close_files ev [] = None"
  by (simp add: close_files_def)

lemma end_signals_closed [simp]:
  "close_files ev written = None \<Longrightarrow> end_signals ev p ex written = terminal_of p ex"
  "close_files ev written = None \<Longrightarrow> kept ev written = written"
  by (simp_all add: end_signals_def kept_def)

lemma end_signals_terminal: "s \<in> set (end_signals ev p ex written) \<Longrightarrow> terminal s"
  by (cases ex) (auto simp: end_signals_def terminal_of_def split: option.splits)

lemma process_file_opened:
  assumes "open_rb (files w) inp = Inr d" and "open_wb (files w) outp = Inr fs'"
    and "process_loop ev h n 0 (if inp = outp then [] else d)
           \<lparr>flag = stop_flag self, outfile = [], emitted = []\<rparr> = (ex, s')"
  shows "process_file ev self w inp outp h n =
    (None, self\<lparr>stop_flag := flag s'\<rparr>,
     \<lparr>files = (files w)(outp \<mapsto> File (kept ev (outfile s'))),
      signals = signals w @ emitted s' @ end_signals ev inp ex (outfile s')\<rparr>)"
proof -
  define d' where "d' = (if inp = outp then [] else d)"
  have wb: "open_wb (files w) outp = Inr ((files w)(outp \<mapsto> File []))"
    using assms(2) open_wb_Inr by blast
  have inf: "content_of (((files w)(outp \<mapsto> File [])) inp) = d'"
    unfolding d'_def by (rule content_after_open[OF assms(1)])
  have run: "process_loop ev h n 0 d' \<lparr>flag = stop_flag self, outfile = [], emitted = []\<rparr>
      = (ex, s')"
    unfolding d'_def by (rule assms(3))
  show ?thesis
    unfolding process_file_def process_file_try_def assms(1) wb sum.case Let_def inf run
    by (cases ex; cases "close_files ev (outfile s')")
       (auto simp: terminal_of_def end_signals_def kept_def)
qed

lemma process_file_not_opened:
  assumes "open_rb (files w) inp = Inl e \<or>
           (\<exists>d. open_rb (files w) inp = Inr d) \<and> open_wb (files w) outp = Inl e"
  shows "process_file ev self w inp outp h n =
    (None, self, w\<lparr>signals := signals w @ [critical_error inp (str e)]\<rparr>)"
  using assms unfolding process_file_def process_file_try_def by auto

lemma open_cases:
  obtains (failed) e where "open_rb (files w) inp = Inl e \<or>
           (\<exists>d. open_rb (files w) inp = Inr d) \<and> open_wb (files w) outp = Inl e"
  | (opened) d fs' where "open_rb (files w) inp = Inr d" and "open_wb (files w) outp = Inr fs'"
proof (cases "open_rb (files w) inp")
  case (Inl e)
  then show ?thesis by (intro failed) simp
next
  case rb: (Inr d)
  show ?thesis
  proof (cases "open_wb (files w) outp")
    case (Inl e)
    with rb show ?thesis by (intro failed) simp
  next
    case (Inr fs')
    with rb show ?thesis by (intro opened)
  qed
qed

lemmas open_defs = open_rb_def open_wb_def no_such_file_def is_a_directory_def
  permission_denied_def

lemmas run_defs = process_file_def process_file_try_def open_defs process_loop.simps
  read_def Let_def close_files_def

lemma demo_run:
  "process_file calm \<lparr>stop_flag = False\<rparr> demo_world ''in.bin'' ''out.bin'' demo_handler 2
   = (None, \<lparr>stop_flag = False\<rparr>,
      \<lparr>files = [''in.bin'' \<mapsto> File [1, 2, 3], ''out.bin'' \<mapsto> File [2, 1, 3]],
       signals = [update_processed_bytes 2, update_processed_bytes 1, operation_completed]\<rparr>)"
  by (simp add: run_defs calm_def demo_world_def demo_handler_def)

lemma slices_shape:
  "slices n d = c # rest \<longleftrightarrow>
     read n d \<noteq> [] \<and> c = read n d \<and> rest = slices n (drop (length c) d)"
  by (subst slices.simps) auto


lemma process_loop_completes:
  assumes "undisturbed ev" and "\<not> flag s" and "transform h i (slices n d) = Inr out"
  shows "process_loop ev h n i d s =
     (Broke, s\<lparr>outfile := outfile s @ out,
        emitted := emitted s @ map (\<lambda>c. update_processed_bytes (length c)) (slices n d)\<rparr>)"
  using assms(2,3)
proof (induction "slices n d" arbitrary: i d s out)
  case Nil
  then have "read n d = []"
    by (subst (asm) slices.simps) (auto split: if_splits)
  with Nil assms(1) show ?case
    by (subst process_loop.simps) (auto simp: Let_def undisturbed_def)
next
  case (Cons c rest)
  from Cons.hyps(2)[symmetric]
  have c: "read n d \<noteq> []" "c = read n d" "rest = slices n (drop (length c) d)"
    by (simp_all add: slices_shape)
  from Cons.prems(1) have same: "s\<lparr>flag := False\<rparr> = s" by simp
  from Cons.prems(2) Cons.hyps(2)[symmetric] obtain p out' where p: "h i c = Inr p"
    "transform h (Suc i) rest = Inr out'" "out = p @ out'"
    by (auto split: sum.splits)
  let ?s2 = "s\<lparr>outfile := outfile s @ p,
              emitted := emitted s @ [update_processed_bytes (length c)]\<rparr>"
  have step: "process_loop ev h n i d s = process_loop ev h n (Suc i) (drop (length c) d) ?s2"
    using c p assms(1) Cons.prems(1)
    by (subst process_loop.simps) (simp add: Let_def undisturbed_def same)
  have "process_loop ev h n (Suc i) (drop (length c) d) ?s2 =
     (Broke, ?s2\<lparr>outfile := outfile ?s2 @ out',
        emitted := emitted ?s2 @ map (\<lambda>c. update_processed_bytes (length c))
           (slices n (drop (length c) d))\<rparr>)"
    using Cons.prems(1) p(2) c(3)
    by (intro Cons.hyps(1)) auto
  then show ?case
    unfolding step by (simp add: Cons.hyps(2)[symmetric] p(3) c(3)[symmetric])
qed


lemma slices_length_le: "c \<in> set (slices n d) \<Longrightarrow> 0 \<le> n \<Longrightarrow> length c \<le> nat n"
proof (induction n d rule: slices.induct)
  case (1 n xs)
  show ?case
  proof (cases "read n xs = []")
    case True
    with "1.prems" show ?thesis by (simp add: slices_Nil)
  next
    case False
    note sl = slices_Cons[OF False]
    from "1.prems"(1) have "c = read n xs \<or> c \<in> set (slices n (drop (length (read n xs)) xs))"
      unfolding sl by simp
    moreover have "length (read n xs) \<le> nat n"
      using "1.prems"(2) by (simp add: read_def)
    ultimately show ?thesis
      using "1.IH"[OF False] "1.prems"(2) by auto
  qed
qed

lemma slices_concat:
  "0 < n \<Longrightarrow> \<forall>c \<in> set cs. length c = nat n \<Longrightarrow> slices n (concat cs) = cs"
proof (induction cs)
  case Nil
  then show ?case by (simp add: slices_Nil read_def)
next
  case (Cons c cs)
  then have len: "length c = nat n" and pos: "0 < nat n" by simp_all
  then have rd: "read n (concat (c # cs)) = c"
    using Cons.prems(1) by (simp add: read_def)
  from len pos have ne: "c \<noteq> []" by auto
  have "slices n (concat (c # cs)) = c # slices n (drop (length c) (concat (c # cs)))"
    using slices_Cons[of n "concat (c # cs)"] ne unfolding rd by simp
  with Cons show ?case by simp
qed

lemma transform_encrypt:
  "\<forall>c \<in> set cs. length c \<le> max_plaintext_len (public_key_size lib pub) \<Longrightarrow>
   transform (encrypt_chunk lib (ChunkEncrypter (Some pub) None)) i cs =
     Inr (concat (encrypted_chunks lib pub i cs))"
  by (induction cs arbitrary: i) simp_all

lemma transform_decrypt:
  "oaep_key_pair lib pub priv \<Longrightarrow>
   \<forall>c \<in> set cs. length c \<le> max_plaintext_len (public_key_size lib pub) \<Longrightarrow>
   transform (decrypt_chunk lib (ChunkEncrypter None (Some priv))) j
     (encrypted_chunks lib pub i cs) = Inr (concat cs)"
  by (induction cs arbitrary: i j) (simp_all add: oaep_key_pair_def)

lemma encrypted_chunks_length:
  "oaep_key_pair lib pub priv \<Longrightarrow>
   \<forall>c \<in> set cs. length c \<le> max_plaintext_len (public_key_size lib pub) \<Longrightarrow>
   ct \<in> set (encrypted_chunks lib pub i cs) \<Longrightarrow>
   length ct = modulus_byte_len (public_key_size lib pub)"
  by (induction cs arbitrary: i) (auto simp: oaep_key_pair_def)

lemma dropWhile_replicate_append:
  "P x \<Longrightarrow> dropWhile P (replicate m x @ ys) = dropWhile P ys"
  by (induction m) simp_all

lemma sample_key_pair: "66 \<le> length k \<Longrightarrow> oaep_key_pair sample_lib k k"
  unfolding oaep_key_pair_def
  by (auto simp: sample_lib_def sample_encrypt_def sample_decrypt_def max_plaintext_len_def
        modulus_byte_len_def dropWhile_replicate_append)

lemma calm_undisturbed: "undisturbed calm"
  by (simp add: undisturbed_def calm_def)

section \<open>The key manager, case by case\<close>

lemma load_private_key_from_file_cases:
  "load_private_key_from_file lib fs path password =
     (case open_rb fs path of
        Inl e \<Rightarrow> if cls e = FileNotFoundError then Inl (private_key_not_found path)
                 else Inl (private_key_failed e)
      | Inr d \<Rightarrow>
          (case load_pem_private_key lib d (map_option encode_utf8 password) of
             Inr k \<Rightarrow> Inr k
           | Inl e \<Rightarrow> if cls e = FileNotFoundError then Inl (private_key_not_found path)
                      else Inl (private_key_failed e)))"
  by (simp add: load_private_key_from_file_def Let_def split: sum.splits)

lemma private_key_failed_cls [simp]: "cls (private_key_failed e) = Exception"
  by (simp add: private_key_failed_def)

lemma private_key_not_found_cls [simp]: "cls (private_key_not_found p) = FileNotFoundError"
  by (simp add: private_key_not_found_def)

lemma private_key_exns_differ [simp]:
  "private_key_not_found p \<noteq> private_key_failed e"
  "private_key_failed e \<noteq> private_key_not_found p"
  by (auto dest: arg_cong[of _ _ cls])

lemma secret_bytes: "encode_utf8 ''secret'' = [115, 101, 99, 114, 101, 116]"
  by (simp add: encode_utf8_def utf8_char_def)

lemma sample_load_private_cls:
  "load_pem_private_key sample_lib d p = Inl e \<Longrightarrow> cls e \<noteq> FileNotFoundError"
  by (auto simp: sample_lib_def sample_load_private_def could_not_deserialize_def
        split: list.splits if_splits option.splits)

section \<open>Terminal notifications\<close>

text \<open>
  C3. The claim asks for exactly one terminal signal on a run that is not cancelled and
  none on a cancelled one. The code emits \<open>operation_completed\<close> inside the \<open>with\<close>
  block, before the files are closed. On a device that fails the flush at close, a run
  over a file of three bytes in chunks of two emits both progress signals, then
  \<open>operation_completed\<close>, then \<open>critical_error\<close>: two terminal signals, and an output
  file without the bytes reported as processed. A run stopped after its first chunk
  emits \<open>critical_error\<close> on the same device, where a cancelled run is to emit nothing.
\<close>

theorem completed_then_error:
  "process_file disk_full \<lparr>stop_flag = False\<rparr> demo_world ''in.bin'' ''out.bin'' demo_handler 2
     = (None, \<lparr>stop_flag = False\<rparr>,
        \<lparr>files = [''in.bin'' \<mapsto> File [1, 2, 3], ''out.bin'' \<mapsto> File []],
         signals = [update_processed_bytes 2, update_processed_bytes 1, operation_completed,
                    critical_error ''in.bin'' ''[Errno 28] No space left on device'']\<rparr>) \<and>
   length (filter terminal
      [update_processed_bytes 2, update_processed_bytes 1, operation_completed,
       critical_error ''in.bin'' ''[Errno 28] No space left on device'']) = 2 \<and>
   process_file (disk_full\<lparr>stop_request := (\<lambda>i. 1 \<le> i)\<rparr>) \<lparr>stop_flag = False\<rparr> demo_world
       ''in.bin'' ''out.bin'' demo_handler 2
     = (None, \<lparr>stop_flag = True\<rparr>,
        \<lparr>files = [''in.bin'' \<mapsto> File [1, 2, 3], ''out.bin'' \<mapsto> File []],
         signals = [update_processed_bytes 2,
                    critical_error ''in.bin'' ''[Errno 28] No space left on device'']\<rparr>)"
  by (simp add: run_defs disk_full_def calm_def demo_world_def demo_handler_def)

section \<open>Cancellation\<close>



section \<open>What a completed run writes\<close>

text \<open>
  C5. When a run of \<open>_process_file\<close> is successful, that is, it emits
  \<open>operation_completed\<close> and no \<open>critical_error\<close>, the output file holds exactly the
  results of the chunk handler on the successive \<open>chunk_size\<close>-byte slices of the
  input, concatenated in the order of the input, with nothing before, between or after
  them. The input is the file as it is read: when both paths name the same file it has
  been truncated by opening the output.
\<close>

theorem completed_output_is_transform:
  assumes "open_rb (files w) inp = Inr d"
    and "process_file ev self w inp outp h n = (x, self', w')"
    and "operation_completed \<in> set (drop (length (signals w)) (signals w'))"
    and "\<forall>p m. critical_error p m \<notin> set (drop (length (signals w)) (signals w'))"
  shows "\<exists>out. transform h 0 (slices n (if inp = outp then [] else d)) = Inr out \<and>
           files w' outp = Some (File out)"
proof (cases rule: open_cases[of w inp outp])
  case (failed e)
  from process_file_not_opened[OF failed, of ev self h n] assms(2)
  have "signals w' = signals w @ [critical_error inp (str e)]" by auto
  with assms(3) show ?thesis by simp
next
  case (opened d0 fs')
  with assms(1) have d0: "d0 = d" by simp
  obtain ex s' where run: "process_loop ev h n 0 (if inp = outp then [] else d)
           \<lparr>flag = stop_flag self, outfile = [], emitted = []\<rparr> = (ex, s')"
    by (cases "process_loop ev h n 0 (if inp = outp then [] else d)
           \<lparr>flag = stop_flag self, outfile = [], emitted = []\<rparr>") blast
  let ?cs = "slices n (if inp = outp then [] else d)"
  from process_loop_run[OF run] obtain m out where m: "m \<le> length ?cs"
    and tr: "transform h 0 (take m ?cs) = Inr out"
    and ou: "outfile s' = out"
    and em: "emitted s' = map (\<lambda>c. update_processed_bytes (length c)) (take m ?cs)"
    and br: "ex = Broke \<longrightarrow> m = length ?cs"
    by auto
  from process_file_opened[OF opened[unfolded d0] run] assms(2)
  have r: "files w' outp = Some (File (kept ev (outfile s')))"
    "signals w' = signals w @ emitted s' @ end_signals ev inp ex (outfile s')"
    by auto
  have cl: "close_files ev (outfile s') = None"
  proof (rule ccontr)
    assume "close_files ev (outfile s') \<noteq> None"
    then obtain e k where "close_files ev (outfile s') = Some (e, k)" by auto
    then have "critical_error inp (str e) \<in> set (end_signals ev inp ex (outfile s'))"
      by (simp add: end_signals_def)
    with assms(4) show False unfolding r by auto
  qed
  from assms(3) have "operation_completed \<in> set (terminal_of inp ex)"
    unfolding r em by (auto simp: cl)
  then have "ex = Broke"
    by (cases ex) (simp_all add: terminal_of_def)
  with br tr r(1) ou cl show ?thesis by simp
qed

theorem completed_output_is_transform_witness:
  "open_rb (files demo_world) ''in.bin'' = Inr [1, 2, 3] \<and>
   operation_completed \<in> set (drop (length (signals demo_world))
      [update_processed_bytes 2, update_processed_bytes 1, operation_completed]) \<and>
   transform demo_handler 0 (slices 2 (if ''in.bin'' = ''out.bin'' then [] else [1, 2, 3]))
     = Inr [2, 1, 3]"
proof -
  have f: "open_rb (files demo_world) ''in.bin'' = Inr [1, 2, 3]"
    by (simp add: demo_world_def open_defs)
  have c: "operation_completed \<in> set (drop (length (signals demo_world))
      (signals \<lparr>files = [''in.bin'' \<mapsto> File [1, 2, 3], ''out.bin'' \<mapsto> File [2, 1, 3]],
         signals = [update_processed_bytes 2, update_processed_bytes 1, operation_completed]\<rparr>))"
    by (simp add: demo_world_def)
  have n: "\<forall>p m. critical_error p m \<notin> set (drop (length (signals demo_world))
      (signals \<lparr>files = [''in.bin'' \<mapsto> File [1, 2, 3], ''out.bin'' \<mapsto> File [2, 1, 3]],
         signals = [update_processed_bytes 2, update_processed_bytes 1, operation_completed]\<rparr>))"
    by (simp add: demo_world_def)
  from completed_output_is_transform[OF f demo_run c n] f c show ?thesis
    by auto
qed

section \<open>Progress signals\<close>

text \<open>
  C6. The signals a run adds are one \<open>update_processed_bytes\<close> for each chunk that was
  processed and written, in the order of the chunks, each carrying the length of its
  input chunk, followed only by terminal signals. Every processed chunk is non-empty,
  so the running total of the byte counts is strictly increasing. The output file
  holds the results of these chunks, or, when the flush at close failed, the part of
  them that had reached the file.
\<close>

theorem progress_once_per_chunk:
  assumes "open_rb (files w) inp = Inr d" and "open_wb (files w) outp = Inr fs'"
    and "process_file ev self w inp outp h n = (x, self', w')"
  shows "\<exists>m out t. m \<le> length (slices n (if inp = outp then [] else d)) \<and>
     transform h 0 (take m (slices n (if inp = outp then [] else d))) = Inr out \<and>
     files w' outp = Some (File (kept ev out)) \<and>
     signals w' = signals w @
        map (\<lambda>c. update_processed_bytes (length c))
          (take m (slices n (if inp = outp then [] else d))) @ t \<and>
     (\<forall>s \<in> set t. terminal s) \<and>
     (\<forall>c \<in> set (take m (slices n (if inp = outp then [] else d))). 0 < length c) \<and>
     sorted_wrt (<)
       (cumulative 0 (map length (take m (slices n (if inp = outp then [] else d)))))"
proof -
  obtain ex s' where run: "process_loop ev h n 0 (if inp = outp then [] else d)
           \<lparr>flag = stop_flag self, outfile = [], emitted = []\<rparr> = (ex, s')"
    by (cases "process_loop ev h n 0 (if inp = outp then [] else d)
           \<lparr>flag = stop_flag self, outfile = [], emitted = []\<rparr>") blast
  let ?cs = "slices n (if inp = outp then [] else d)"
  from process_loop_run[OF run] obtain m out where m: "m \<le> length ?cs"
    and tr: "transform h 0 (take m ?cs) = Inr out"
    and ou: "outfile s' = out"
    and em: "emitted s' = map (\<lambda>c. update_processed_bytes (length c)) (take m ?cs)"
    by auto
  from process_file_opened[OF assms(1,2) run] assms(3)
  have r: "files w' outp = Some (File (kept ev (outfile s')))"
    "signals w' = signals w @ emitted s' @ end_signals ev inp ex (outfile s')"
    by auto
  have pos: "\<forall>c \<in> set (take m ?cs). 0 < length c"
  proof
    fix c assume "c \<in> set (take m ?cs)"
    then have "c \<in> set ?cs" by (rule in_set_takeD)
    then have "c \<noteq> []" by (rule slices_nonempty)
    then show "0 < length c" by simp
  qed
  then have inc: "sorted_wrt (<) (cumulative 0 (map length (take m ?cs)))"
    by (intro cumulative_increasing) auto
  show ?thesis
    using m tr r ou em pos inc end_signals_terminal[of _ ev inp ex out]
    by (intro exI[of _ m] exI[of _ out] exI[of _ "end_signals ev inp ex out"]) simp
qed

theorem progress_once_per_chunk_witness:
  "open_rb (files demo_world) ''in.bin'' = Inr [1, 2, 3] \<and>
   open_wb (files demo_world) ''out.bin'' = Inr ((files demo_world)(''out.bin'' \<mapsto> File [])) \<and>
   (\<exists>m t. [update_processed_bytes 2, update_processed_bytes 1, operation_completed] =
      map (\<lambda>c. update_processed_bytes (length c))
          (take m (slices 2 (if ''in.bin'' = ''out.bin'' then [] else [1, 2, 3]))) @ t \<and>
      (\<forall>s \<in> set t. terminal s) \<and>
      sorted_wrt (<) (cumulative 0
        (map length (take m (slices 2 (if ''in.bin'' = ''out.bin'' then [] else [1, 2, 3]))))))"
proof -
  have f: "open_rb (files demo_world) ''in.bin'' = Inr [1, 2, 3]"
    and g: "open_wb (files demo_world) ''out.bin'' =
              Inr ((files demo_world)(''out.bin'' \<mapsto> File []))"
    by (simp_all add: demo_world_def open_defs)
  have s: "signals demo_world = []" by (simp add: demo_world_def)
  from progress_once_per_chunk[OF f g demo_run] f g show ?thesis
    unfolding s by (elim exE conjE) (intro conjI exI, simp_all)
qed

section \<open>The stop flag after a request\<close>

text \<open>
  C9, as stated, fails: with the flag set, a call whose input file does not exist still
  emits \<open>critical_error\<close>, because the files are opened before the flag is tested.
\<close>

theorem stop_flag_silent_counterexample:
  "signals (snd (snd (encrypt_file calm sample_lib (stop_process_request \<lparr>stop_flag = False\<rparr>)
      demo_world ''missing.bin'' ''out.bin'' [7]))) =
   [critical_error ''missing.bin''
      (''[Errno 2] No such file or directory: '' @ quoted ''missing.bin'')]"
  by (simp add: encrypt_file_def process_file_def process_file_try_def open_defs
        demo_world_def)

text \<open>
  C9, amended. Neither \<open>encrypt_file\<close> nor \<open>decrypt_file\<close> resets a stop flag that is
  set. With the flag set, a call whose input and output can be opened returns at the
  test of its first iteration: nothing is read, no chunk is written, no signal is
  emitted; the output file has been created or truncated to empty by opening it.
\<close>

theorem stop_flag_persists:
  assumes "stop_flag self"
  shows "stop_flag (fst (snd (encrypt_file ev lib self w inp outp pub))) \<and>
         stop_flag (fst (snd (decrypt_file ev lib self w inp outp priv))) \<and>
         (open_rb (files w) inp = Inr d \<and> open_wb (files w) outp = Inr fs' \<longrightarrow>
            encrypt_file ev lib self w inp outp pub =
              (None, self, w\<lparr>files := (files w)(outp \<mapsto> File [])\<rparr>) \<and>
            decrypt_file ev lib self w inp outp priv =
              (None, self, w\<lparr>files := (files w)(outp \<mapsto> File [])\<rparr>))"
proof -
  have stopped: "process_loop ev h n 0 dd \<lparr>flag = stop_flag self, outfile = [], emitted = []\<rparr>
      = (Returned, \<lparr>flag = True, outfile = [], emitted = []\<rparr>)" for h n dd
    using assms by (subst process_loop.simps) (simp add: Let_def)
  have keep: "stop_flag (fst (snd (process_file ev self w inp outp h n)))" for h n
  proof (cases rule: open_cases[of w inp outp])
    case (failed e)
    from process_file_not_opened[OF failed, of ev self h n] assms show ?thesis by simp
  next
    case (opened d0 fs0)
    from process_file_opened[OF opened stopped] show ?thesis by simp
  qed
  have same: "self\<lparr>stop_flag := True\<rparr> = self" using assms by simp
  have quiet: "process_file ev self w inp outp h n =
       (None, self, w\<lparr>files := (files w)(outp \<mapsto> File [])\<rparr>)"
    if "open_rb (files w) inp = Inr d" "open_wb (files w) outp = Inr fs'" for h n
    using process_file_opened[OF that stopped, of h n]
    by (simp add: terminal_of_def same)
  show ?thesis
    unfolding encrypt_file_def decrypt_file_def Let_def
    using keep quiet by blast
qed

theorem stop_flag_persists_witness:
  "stop_flag (stop_process_request \<lparr>stop_flag = False\<rparr>) \<and>
   encrypt_file calm sample_lib (stop_process_request \<lparr>stop_flag = False\<rparr>) demo_world
     ''in.bin'' ''out.bin'' [7] =
     (None, stop_process_request \<lparr>stop_flag = False\<rparr>,
      demo_world\<lparr>files := (files demo_world)(''out.bin'' \<mapsto> File [])\<rparr>) \<and>
   decrypt_file calm sample_lib (stop_process_request \<lparr>stop_flag = False\<rparr>) demo_world
     ''in.bin'' ''out.bin'' [7] =
     (None, stop_process_request \<lparr>stop_flag = False\<rparr>,
      demo_world\<lparr>files := (files demo_world)(''out.bin'' \<mapsto> File [])\<rparr>)"
proof -
  have s: "stop_flag (stop_process_request \<lparr>stop_flag = False\<rparr>)"
    by (simp add: stop_process_request_def)
  have f: "open_rb (files demo_world) ''in.bin'' = Inr [1, 2, 3] \<and>
      open_wb (files demo_world) ''out.bin'' =
        Inr ((files demo_world)(''out.bin'' \<mapsto> File []))"
    by (simp add: demo_world_def open_defs)
  from stop_flag_persists[OF s, where ev = calm and lib = sample_lib and w = demo_world
      and inp = "''in.bin''" and outp = "''out.bin''" and pub = "[7]" and priv = "[7]"
      and d = "[1, 2, 3]" and fs' = "(files demo_world)(''out.bin'' \<mapsto> File [])"] s f
  show ?thesis by blast
qed

section \<open>Encrypting and decrypting a file\<close>

text \<open>
  C1, as stated, fails: the chunk sizes are fixed at 446 and 512 bytes, so with a
  matching pair of 2048-bit keys (capacity 190 bytes) a plaintext of 191 bytes is
  rejected by \<open>encrypt_chunk\<close>, the ciphertext file stays empty, and decrypting it gives
  the empty file.
\<close>

theorem encrypt_then_decrypt_counterexample:
  "oaep_key_pair sample_lib (replicate 256 7) (replicate 256 7) \<and>
   encrypt_file calm sample_lib \<lparr>stop_flag = False\<rparr>
       \<lparr>files = [''in.bin'' \<mapsto> File (replicate 191 65)], signals = []\<rparr>
       ''in.bin'' ''mid.bin'' (replicate 256 7) =
     (None, \<lparr>stop_flag = False\<rparr>,
      \<lparr>files = [''in.bin'' \<mapsto> File (replicate 191 65), ''mid.bin'' \<mapsto> File []],
       signals = [critical_error ''in.bin'' ''plaintext too long'']\<rparr>) \<and>
   files (snd (snd (decrypt_file calm sample_lib \<lparr>stop_flag = False\<rparr>
      \<lparr>files = [''in.bin'' \<mapsto> File (replicate 191 65), ''mid.bin'' \<mapsto> File []],
       signals = [critical_error ''in.bin'' ''plaintext too long'']\<rparr>
      ''mid.bin'' ''out.bin'' (replicate 256 7)))) ''out.bin'' = Some (File []) \<and>
   Some (File []) \<noteq> Some (File (replicate 191 (65 :: byte)))"
proof -
  have kp: "oaep_key_pair sample_lib (replicate 256 7) (replicate 256 7)"
    by (rule sample_key_pair) simp
  have enc: "encrypt_file calm sample_lib \<lparr>stop_flag = False\<rparr>
       \<lparr>files = [''in.bin'' \<mapsto> File (replicate 191 65)], signals = []\<rparr>
       ''in.bin'' ''mid.bin'' (replicate 256 7) =
     (None, \<lparr>stop_flag = False\<rparr>,
      \<lparr>files = [''in.bin'' \<mapsto> File (replicate 191 65), ''mid.bin'' \<mapsto> File []],
       signals = [critical_error ''in.bin'' ''plaintext too long'']\<rparr>)"
    by (simp add: encrypt_file_def run_defs calm_def Size_ENCRYPTION_CHUNK_def
          sample_lib_def max_plaintext_len_def modulus_byte_len_def)
  have dec: "files (snd (snd (decrypt_file calm sample_lib \<lparr>stop_flag = False\<rparr>
      \<lparr>files = [''in.bin'' \<mapsto> File (replicate 191 65), ''mid.bin'' \<mapsto> File []],
       signals = [critical_error ''in.bin'' ''plaintext too long'']\<rparr>
      ''mid.bin'' ''out.bin'' (replicate 256 7)))) ''out.bin'' = Some (File [])"
    by (simp add: decrypt_file_def run_defs calm_def Size_DECRYPTION_CHUNK_def)
  show ?thesis using kp enc dec by simp
qed

text \<open>
  C1, amended. For a matching key pair whose modulus is 512 bytes long, a plaintext
  file, paths for the ciphertext and the result that can be opened (the ciphertext path
  different from the other two), no stop request and no device error: \<open>encrypt_file\<close>
  followed by \<open>decrypt_file\<close> leaves the plaintext, byte for byte, in the result file.
\<close>

theorem encrypt_then_decrypt:
  assumes kp: "oaep_key_pair lib pub priv"
    and size: "modulus_byte_len (public_key_size lib pub) = 512"
    and plain: "open_rb (files w) plain_path = Inr P"
    and p1: "plain_path \<noteq> cipher_path" and p2: "cipher_path \<noteq> out_path"
    and d1: "open_wb (files w) cipher_path = Inr fs1"
    and d2: "open_wb (files w) out_path = Inr fs2"
    and nostop: "\<not> stop_flag self"
    and e1: "undisturbed ev1" and e2: "undisturbed ev2"
    and enc: "encrypt_file ev1 lib self w plain_path cipher_path pub = (x1, self1, w1)"
    and dec: "decrypt_file ev2 lib self1 w1 cipher_path out_path priv = (x2, self2, w2)"
  shows "files w2 out_path = Some (File P)"
proof -
  let ?he = "encrypt_chunk lib (ChunkEncrypter (Some pub) None)"
  let ?hd = "decrypt_chunk lib (ChunkEncrypter None (Some priv))"
  let ?cs = "slices 446 P"
  let ?cts = "encrypted_chunks lib pub 0 ?cs"
  have cap: "max_plaintext_len (public_key_size lib pub) = 446"
    by (simp add: max_plaintext_len_def size)
  have short: "\<forall>c \<in> set ?cs. length c \<le> max_plaintext_len (public_key_size lib pub)"
    unfolding cap using slices_length_le[of _ 446 P] by auto
  have c1': "close_files ev1 x = None" and c2': "close_files ev2 x = None" for x
    using e1 e2 by (simp_all add: close_files_def undisturbed_def)
  let ?s0 = "\<lparr>flag = stop_flag self, outfile = [], emitted = []\<rparr>"
  have run1: "process_loop ev1 ?he 446 0 (if plain_path = cipher_path then [] else P) ?s0 =
      (Broke, ?s0\<lparr>outfile := outfile ?s0 @ concat ?cts,
         emitted := emitted ?s0 @ map (\<lambda>c. update_processed_bytes (length c)) ?cs\<rparr>)"
    using p1 nostop transform_encrypt[OF short, of 0]
    by (simp add: process_loop_completes[OF e1])
  from enc have "process_file ev1 self w plain_path cipher_path ?he 446 = (x1, self1, w1)"
    by (simp add: encrypt_file_def Size_ENCRYPTION_CHUNK_def)
  then have r1: "self1 = self\<lparr>stop_flag := False\<rparr>"
    "files w1 = (files w)(cipher_path \<mapsto> File (concat ?cts))"
    unfolding process_file_opened[OF plain d1 run1] using nostop by (auto simp: c1')
  have c1: "open_rb (files w1) cipher_path = Inr (concat ?cts)"
    by (simp add: r1 open_rb_def)
  have c2: "open_wb (files w1) out_path = Inr ((files w1)(out_path \<mapsto> File []))"
    using p2 by (intro open_wb_elsewhere[OF d2]) (simp add: r1)
  have len: "\<forall>ct \<in> set ?cts. length ct = nat 512"
    using encrypted_chunks_length[OF kp short, of _ 0] by (simp add: size)
  have sl: "slices 512 (concat ?cts) = ?cts"
    using len by (intro slices_concat) simp_all
  have tr: "transform ?hd 0 (slices 512 (concat ?cts)) = Inr P"
    unfolding sl using transform_decrypt[OF kp short, of 0 0] by (simp add: concat_slices)
  let ?t0 = "\<lparr>flag = stop_flag self1, outfile = [], emitted = []\<rparr>"
  have nf: "\<not> flag ?t0" by (simp add: r1)
  have run2: "process_loop ev2 ?hd 512 0 (if cipher_path = out_path then [] else concat ?cts) ?t0 =
      (Broke, ?t0\<lparr>outfile := outfile ?t0 @ P,
         emitted := emitted ?t0 @ map (\<lambda>c. update_processed_bytes (length c))
            (slices 512 (concat ?cts))\<rparr>)"
    using p2 process_loop_completes[OF e2 nf tr] by simp
  from dec have "process_file ev2 self1 w1 cipher_path out_path ?hd 512 = (x2, self2, w2)"
    by (simp add: decrypt_file_def Size_DECRYPTION_CHUNK_def)
  then show ?thesis
    unfolding process_file_opened[OF c1 c2 run2] by (auto simp: c2')
qed

theorem encrypt_then_decrypt_witness:
  "oaep_key_pair sample_lib (replicate 512 7) (replicate 512 7) \<and>
   files (snd (snd (decrypt_file calm sample_lib
     (fst (snd (encrypt_file calm sample_lib \<lparr>stop_flag = False\<rparr> demo_world
         ''in.bin'' ''mid.bin'' (replicate 512 7))))
     (snd (snd (encrypt_file calm sample_lib \<lparr>stop_flag = False\<rparr> demo_world
         ''in.bin'' ''mid.bin'' (replicate 512 7))))
     ''mid.bin'' ''out.bin'' (replicate 512 7)))) ''out.bin'' = Some (File [1, 2, 3])"
proof -
  have kp: "oaep_key_pair sample_lib (replicate 512 7) (replicate 512 7)"
    by (rule sample_key_pair) simp
  have size: "modulus_byte_len (public_key_size sample_lib (replicate 512 7)) = 512"
    by (simp add: sample_lib_def modulus_byte_len_def)
  have f: "open_rb (files demo_world) ''in.bin'' = Inr [1, 2, 3]"
    and d1: "open_wb (files demo_world) ''mid.bin'' =
               Inr ((files demo_world)(''mid.bin'' \<mapsto> File []))"
    and d2: "open_wb (files demo_world) ''out.bin'' =
               Inr ((files demo_world)(''out.bin'' \<mapsto> File []))"
    by (simp_all add: demo_world_def open_defs)
  have p1: "''in.bin'' \<noteq> ''mid.bin''" and p2: "''mid.bin'' \<noteq> ''out.bin''" by simp_all
  have nostop: "\<not> stop_flag \<lparr>stop_flag = False\<rparr>" by simp
  let ?E = "encrypt_file calm sample_lib \<lparr>stop_flag = False\<rparr> demo_world
         ''in.bin'' ''mid.bin'' (replicate 512 7)"
  let ?D = "decrypt_file calm sample_lib (fst (snd ?E)) (snd (snd ?E))
         ''mid.bin'' ''out.bin'' (replicate 512 7)"
  have enc: "?E = (fst ?E, fst (snd ?E), snd (snd ?E))" by simp
  have dec: "?D = (fst ?D, fst (snd ?D), snd (snd ?D))" by simp
  from encrypt_then_decrypt[OF kp size f p1 p2 d1 d2 nostop calm_undisturbed calm_undisturbed
      enc dec] kp
  show ?thesis by simp
qed

section \<open>Saving a private key\<close>

text \<open>
  C2. The claim asks for password-based encryption whenever a passphrase is supplied,
  the empty string included, as the docstring names \<open>None\<close> alone as the case saved
  without encryption. The code chooses the encryption by the truth value of
  \<open>password\<close>: called with the empty string it writes the unencrypted PEM, the same
  bytes as with no passphrase, which load without any password. The loader tests
  \<open>password is not None\<close>, so the file saved under the empty passphrase does not load
  under it.
\<close>

theorem empty_passphrase_saved_unencrypted:
  "save_private_key_to_file sample_lib demo_rsa Map.empty ''key.pem'' (Some []) (Some [7, 7])
     = (None, [''key.pem'' \<mapsto> File [0, 7, 7]]) \<and>
   save_private_key_to_file sample_lib demo_rsa Map.empty ''key.pem'' None (Some [7, 7])
     = (None, [''key.pem'' \<mapsto> File [0, 7, 7]]) \<and>
   private_bytes sample_lib [7, 7] NoEncryption = Inr [0, 7, 7] \<and>
   load_private_key_from_file sample_lib [''key.pem'' \<mapsto> File [0, 7, 7]] ''key.pem'' None
     = Inr [7, 7] \<and>
   load_private_key_from_file sample_lib [''key.pem'' \<mapsto> File [0, 7, 7]] ''key.pem''
       (Some [])
     = Inl (private_key_failed
         (Raise TypeError ''Password was given but private key is not encrypted.''))"
  by (simp add: save_private_key_to_file_def load_private_key_from_file_def open_defs
        sample_lib_def sample_private_bytes_def sample_load_private_def encode_utf8_def)

text \<open>
  C10. A call of \<open>save_private_key_to_file\<close> with no private key generates one with
  \<open>Rsa.PUBLIC_EXPONENT\<close> and \<open>Rsa.KEY_SIZE\<close> and then behaves as the call with that key:
  when the generator returns a key and the path can be opened, the call without
  passphrase succeeds and leaves the PEM of the generated key at the path.
\<close>

theorem save_generates_missing_key:
  assumes "generate_private_key lib (PUBLIC_EXPONENT rsa) (KEY_SIZE rsa) = Inr k"
  shows "save_private_key_to_file lib rsa fs path password None =
           save_private_key_to_file lib rsa fs path password (Some k) \<and>
         (open_wb fs path = Inr fs' \<longrightarrow> private_bytes lib k NoEncryption = Inr pem \<longrightarrow>
            save_private_key_to_file lib rsa fs path None None =
              (None, fs(path \<mapsto> File pem)))"
  using assms by (auto simp: save_private_key_to_file_def dest: open_wb_Inr)

theorem save_generates_missing_key_witness:
  "generate_private_key sample_lib (PUBLIC_EXPONENT demo_rsa) (KEY_SIZE demo_rsa)
     = Inr (replicate 512 1) \<and>
   save_private_key_to_file sample_lib demo_rsa Map.empty ''key.pem'' None None =
     (None, [''key.pem'' \<mapsto> File (0 # replicate 512 1)])"
proof -
  have g: "generate_private_key sample_lib (PUBLIC_EXPONENT demo_rsa) (KEY_SIZE demo_rsa)
     = Inr (replicate 512 1)"
    by (simp add: sample_lib_def demo_rsa_def)
  have d: "open_wb Map.empty ''key.pem'' = Inr [''key.pem'' \<mapsto> File []]"
    by (simp add: open_defs)
  have p: "private_bytes sample_lib (replicate 512 1) NoEncryption = Inr (0 # replicate 512 1)"
    by (simp add: sample_lib_def sample_private_bytes_def)
  from save_generates_missing_key[OF g, where fs = Map.empty and path = "''key.pem''"
      and pem = "0 # replicate 512 1" and password = None
      and fs' = "[''key.pem'' \<mapsto> File []]"] d p
  have "save_private_key_to_file sample_lib demo_rsa Map.empty ''key.pem'' None None =
     (None, [''key.pem'' \<mapsto> File (0 # replicate 512 1)])"
    by blast
  with g show ?thesis by blast
qed

section \<open>Loading and parsing a private key\<close>

text \<open>
  C8, as stated, fails in both directions. A key file that is absent because its path
  runs through a regular file makes \<open>open\<close> raise \<open>NotADirectoryError\<close>, and a path that
  is a directory makes it raise \<open>IsADirectoryError\<close>: the \<open>except Exception\<close> clause
  reports both as a failure to process the key, though the first file is absent and in
  neither case a PEM was parsed or a passphrase compared.
\<close>

theorem load_private_not_format_counterexample:
  "load_private_key_from_file sample_lib
       [''key.pem'' \<mapsto> File [0, 7, 7], ''key.pem/x'' \<mapsto> Unopenable NotADirectory]
       ''key.pem/x'' None =
     Inl (private_key_failed
       (Raise NotADirectoryError (''[Errno 20] Not a directory: '' @ quoted ''key.pem/x''))) \<and>
   load_private_key_from_file sample_lib [''keys'' \<mapsto> Directory] ''keys'' None =
     Inl (Raise Exception
       (''Failed to process private key. Please check file format and try again.''
        @ [CHR 0x0A, CHR 0x0A] @ ''Additional Info:'' @ [CHR 0x0A]
        @ '' [Errno 21] Is a directory: '' @ quoted ''keys''))"
  by (simp add: load_private_key_from_file_def open_defs private_key_failed_def)

text \<open>
  C8, amended. For a passphrase that encodes as UTF-8 and a parser that never raises
  \<open>FileNotFoundError\<close> itself, \<open>load_private_key_from_file\<close> fails with the
  \<open>FileNotFoundError\<close> naming the path exactly when opening the file raises
  \<open>FileNotFoundError\<close>; it fails with the plain \<open>Exception\<close> that asks to check the file
  format exactly when opening or reading the file raises anything else (the path runs
  through a regular file, is a directory, access is denied, another error of the
  operating system) or the parser rejects the content with the given passphrase
  (malformed PEM, wrong, missing or superfluous passphrase); and it returns a key
  exactly when the file can be read and the parser yields that key for the stored
  bytes and the encoded passphrase. The two failures are of different classes.
\<close>

theorem load_private_key_failures:
  assumes "\<forall>d p e. load_pem_private_key lib d p = Inl e \<longrightarrow> cls e \<noteq> FileNotFoundError"
  shows "(load_private_key_from_file lib fs path password = Inl (private_key_not_found path)
            \<longleftrightarrow> (\<exists>e. open_rb fs path = Inl e \<and> cls e = FileNotFoundError)) \<and>
    ((\<exists>e. load_private_key_from_file lib fs path password = Inl (private_key_failed e))
        \<longleftrightarrow> (\<exists>e. open_rb fs path = Inl e \<and> cls e \<noteq> FileNotFoundError) \<or>
            (\<exists>d e. open_rb fs path = Inr d \<and>
               load_pem_private_key lib d (map_option encode_utf8 password) = Inl e)) \<and>
    (\<forall>k. load_private_key_from_file lib fs path password = Inr k
        \<longleftrightarrow> (\<exists>d. open_rb fs path = Inr d \<and>
               load_pem_private_key lib d (map_option encode_utf8 password) = Inr k)) \<and>
    cls (private_key_not_found path) = FileNotFoundError \<and>
    (\<forall>e. cls (private_key_failed e) = Exception)"
proof (cases "open_rb fs path")
  case (Inl e)
  then show ?thesis
    by (auto simp: load_private_key_from_file_cases)
next
  case rb: (Inr d)
  show ?thesis
  proof (cases "load_pem_private_key lib d (map_option encode_utf8 password)")
    case (Inl e)
    with assms have "cls e \<noteq> FileNotFoundError" by blast
    with Inl rb show ?thesis
      by (auto simp: load_private_key_from_file_cases)
  next
    case (Inr k)
    with rb show ?thesis
      by (auto simp: load_private_key_from_file_cases)
  qed
qed

theorem load_private_key_failures_witness:
  "load_private_key_from_file sample_lib
      [''key.pem'' \<mapsto> File [1, 6, 115, 101, 99, 114, 101, 116, 7, 7]] ''key.pem''
      (Some ''secret'') = Inr [7, 7] \<and>
   (\<exists>e. load_private_key_from_file sample_lib
      [''key.pem'' \<mapsto> File [1, 6, 115, 101, 99, 114, 101, 116, 7, 7]] ''key.pem''
      (Some ''secrex'') = Inl (private_key_failed e)) \<and>
   load_private_key_from_file sample_lib
      [''key.pem'' \<mapsto> File [1, 6, 115, 101, 99, 114, 101, 116, 7, 7]] ''other.pem''
      (Some ''secret'') = Inl (private_key_not_found ''other.pem'')"
proof -
  let ?fs = "[''key.pem'' \<mapsto> File [1, 6, 115, 101, 99, 114, 101, 116, 7, 7 :: byte]]"
  have rb: "open_rb ?fs ''key.pem'' = Inr [1, 6, 115, 101, 99, 114, 101, 116, 7, 7]"
    by (simp add: open_defs)
  have nf: "open_rb ?fs ''other.pem'' = Inl (no_such_file ''other.pem'')"
    "cls (no_such_file ''other.pem'') = FileNotFoundError"
    by (simp_all add: open_rb_def no_such_file_def)
  have good: "load_pem_private_key sample_lib [1, 6, 115, 101, 99, 114, 101, 116, 7, 7]
      (map_option encode_utf8 (Some ''secret'')) = Inr [7, 7]"
    by (simp add: sample_lib_def sample_load_private_def secret_bytes)
  have bad: "load_pem_private_key sample_lib [1, 6, 115, 101, 99, 114, 101, 116, 7, 7]
      (map_option encode_utf8 (Some ''secrex'')) =
        Inl (Raise ValueError ''Bad decrypt. Incorrect password?'')"
    by (simp add: sample_lib_def sample_load_private_def encode_utf8_def utf8_char_def)
  have lib: "\<forall>d p e. load_pem_private_key sample_lib d p = Inl e \<longrightarrow> cls e \<noteq> FileNotFoundError"
    using sample_load_private_cls by blast
  note t1 = load_private_key_failures[OF lib, where fs = ?fs
      and path = "''key.pem''" and password = "Some ''secret''"]
  note t2 = load_private_key_failures[OF lib, where fs = ?fs
      and path = "''key.pem''" and password = "Some ''secrex''"]
  note t3 = load_private_key_failures[OF lib, where fs = ?fs
      and path = "''other.pem''" and password = "Some ''secret''"]
  have a: "load_private_key_from_file sample_lib ?fs ''key.pem'' (Some ''secret'') = Inr [7, 7]"
    using t1 good rb by blast
  have b: "\<exists>e. load_private_key_from_file sample_lib ?fs ''key.pem'' (Some ''secrex'')
      = Inl (private_key_failed e)"
    using t2 bad rb by blast
  have c: "load_private_key_from_file sample_lib ?fs ''other.pem'' (Some ''secret'')
      = Inl (private_key_not_found ''other.pem'')"
    using t3 nf by blast
  from a b c show ?thesis by blast
qed

text \<open>
  C7. \<open>serialize_private_key\<close> has no \<open>try\<close>: its result is the parser's result, so a
  failure is the parser's own exception and not the plain \<open>Exception\<close> with advice.
  On the text \<open>not a key\<close> it raises the parser's \<open>ValueError\<close>, where
  \<open>serialize_public_key\<close> and \<open>load_private_key_from_file\<close> raise their wrapped
  failures.
\<close>

theorem serialize_private_key_unwrapped:
  "serialize_private_key lib text password =
     load_pem_private_key lib (encode_utf8 text) (map_option encode_utf8 password) \<and>
   serialize_private_key sample_lib ''not a key'' None =
     Inl (Raise ValueError ''Could not deserialize key data.'') \<and>
   serialize_public_key sample_lib ''not a key'' =
     Inl (public_key_failed (Raise ValueError ''Could not deserialize key data.'')) \<and>
   load_private_key_from_file sample_lib [''key.pem'' \<mapsto> File (encode_utf8 ''not a key'')]
       ''key.pem'' None =
     Inl (private_key_failed (Raise ValueError ''Could not deserialize key data.''))"
  by (simp add: serialize_private_key_def serialize_public_key_def
        load_private_key_from_file_def open_defs sample_lib_def sample_load_private_def
        sample_load_public_def could_not_deserialize_def encode_utf8_def utf8_char_def)

end
